theory Spec2Isabelle
  imports Main
begin

section \<open>Time, identifiers and the punishment table\<close>

text \<open>
  Discord ids and the BIGINT columns are Python integers. An instant is a naive UTC
  \<^verbatim>\<open>datetime\<close> and a duration a \<^verbatim>\<open>timedelta\<close>; both have microsecond resolution, so
  they are integers counting microseconds. \<^verbatim>\<open>total_seconds()\<close> is the same quantity as
  a float of seconds: its sign and its being zero are those of the microsecond count.
\<close>

type_synonym datetime = int
type_synonym timedelta = int

definition hours :: "int \<Rightarrow> timedelta" where
  "hours h = h * 3600000000"

text \<open>\<^verbatim>\<open>self.PUNISHMENTS\<close> of \<^verbatim>\<open>ModeratingCog.__init__\<close>: total warnings to (action, duration),
  \<open>None\<close> the permanent duration. The dictionary is built once and never written again.\<close>

definition PUNISHMENTS :: "int \<rightharpoonup> (string \<times> timedelta option)" where
  "PUNISHMENTS = map_of
     [(3, (''mute'', Some (hours 1))),
      (4, (''mute'', Some (hours 12))),
      (5, (''mute'', Some (hours 24))),
      (6, (''mute'', Some (hours 168))),
      (7, (''mute'', Some (hours 672))),
      (8, (''ban'', None))]"

text \<open>Python's \<^verbatim>\<open>if duration:\<close> is false for \<^verbatim>\<open>None\<close> and for a zero timedelta.\<close>

definition truthy :: "timedelta option \<Rightarrow> bool" where
  "truthy duration = (case duration of None \<Rightarrow> False | Some d \<Rightarrow> d \<noteq> 0)"

section \<open>The world: database tables, Discord guilds, pending tasks\<close>

text \<open>The rows of \<^verbatim>\<open>create_tables\<close> in database.py.\<close>

record warning_row =
  w_id :: int
  w_user_id :: int
  w_guild_id :: int
  w_moderator_id :: int
  w_reason :: string
  w_timestamp :: string
  w_ended_at :: "string option"

record punishment_row =
  p_id :: int
  p_user_id :: int
  p_guild_id :: int
  p_action :: string
  p_ends_at :: "string option"

text \<open>
  What the cog reads and changes of a guild through discord.py: whether a role named
  "Muted" exists and who holds it, who is timed out, the members, the ban list, the
  channels (and those that carry the permission overwrite of the mute role), whether a
  text channel named "general" exists, and what the bot is allowed to do there. A call
  the bot lacks the permission for raises \<^verbatim>\<open>discord.Forbidden\<close>.
\<close>

record guild =
  muted_role :: bool
  muted :: "int set"
  timed_out :: "int set"
  members :: "int set"
  bans :: "int set"
  channels :: "int list"
  mute_overwrites :: "int set"
  general :: bool
  can_manage_roles :: bool
  can_moderate :: bool
  can_ban :: bool
  can_send :: bool

record ctx =
  ctx_guild :: int
  ctx_author :: int

datatype exn = Forbidden | NotFound | ValueError | TypeError

datatype channel_ref = CtxChannel | DirectMessage int | LogChannel int | GeneralChannel

datatype notice =
    MsgMuted int "timedelta option"
  | MsgUnmuted int
  | MsgAlreadyBanned int
  | MsgBanned int "timedelta option"
  | MsgUnbannedTemporary int
  | MsgUnmutedBelowThreshold int
  | MsgWarned int int string
  | MsgYouWereWarned string int
  | LogWarned int int string
  | MsgNoWarnings int
  | MsgRemovedLatest int
  | LogRemovedWarning int int
  | MsgCleared int
  | LogCleared int int
  | MsgCannotUnmute int
  | MsgAutoUnmuted int
  | MsgAutoUnbanned int

text \<open>
  The coroutines handed to \<^verbatim>\<open>loop.create_task\<close>: \<^verbatim>\<open>_delayed_unpunish(user_id, guild_id,
  action, delay)\<close> from \<^verbatim>\<open>cog_load\<close>, and the closures \<^verbatim>\<open>unmute_later\<close> and \<^verbatim>\<open>unban_later\<close> of
  \<^verbatim>\<open>apply_punishment\<close>, which capture the context, the member and the duration.
\<close>

datatype task =
    DelayedUnpunish int int string timedelta
  | UnmuteLater ctx int timedelta
  | UnbanLater ctx int timedelta

record world =
  warnings :: "warning_row list"
  warnings_auto_increment :: int
  punishments :: "punishment_row list"
  guilds :: "int \<rightharpoonup> guild"
  dm_closed :: "int set"
  log_channel_id :: "int option"
  tasks :: "task list"
  sent :: "(int option \<times> channel_ref \<times> notice) list"

section \<open>Awaited calls: a step changes the world and may raise\<close>

text \<open>
  An awaited call returns the world it leaves behind together with the exception it
  raised, if any: a committed database write or a completed Discord call is not undone
  by an exception raised later.
\<close>

type_synonym step = "world \<Rightarrow> exn option \<times> world"

definition ok :: step where
  "ok w = (None, w)"

fun do_all :: "step list \<Rightarrow> step" where
  "do_all [] w = (None, w)"
| "do_all (s # ss) w =
     (case s w of
        (None, w') \<Rightarrow> do_all ss w'
      | (Some e, w') \<Rightarrow> (Some e, w'))"

definition try_except :: "step \<Rightarrow> exn \<Rightarrow> step \<Rightarrow> step" where
  "try_except body e handler w =
     (case body w of
        (None, w') \<Rightarrow> (None, w')
      | (Some e', w') \<Rightarrow> if e' = e then handler w' else (Some e', w'))"

section \<open>database.py\<close>

definition add_warning :: "int \<Rightarrow> int \<Rightarrow> int \<Rightarrow> string \<Rightarrow> string \<Rightarrow> world \<Rightarrow> world" where
  "add_warning user_id guild_id moderator_id reason timestamp w =
     w\<lparr>warnings := warnings w @
          [\<lparr>w_id = warnings_auto_increment w, w_user_id = user_id, w_guild_id = guild_id,
            w_moderator_id = moderator_id, w_reason = reason, w_timestamp = timestamp,
            w_ended_at = None\<rparr>],
       warnings_auto_increment := warnings_auto_increment w + 1\<rparr>"

definition user_warnings :: "int \<Rightarrow> int \<Rightarrow> world \<Rightarrow> warning_row list" where
  "user_warnings user_id guild_id w =
     filter (\<lambda>r. w_user_id r = user_id \<and> w_guild_id r = guild_id) (warnings w)"

definition get_warnings_count :: "int \<Rightarrow> int \<Rightarrow> world \<Rightarrow> int" where
  "get_warnings_count user_id guild_id w = int (length (user_warnings user_id guild_id w))"

text \<open>\<^verbatim>\<open>ORDER BY id DESC LIMIT 1\<close>: the greatest id among the rows of the pair.\<close>

definition get_one_user_warning :: "int \<Rightarrow> int \<Rightarrow> world \<Rightarrow> int option" where
  "get_one_user_warning user_id guild_id w =
     (case map w_id (user_warnings user_id guild_id w) of
        [] \<Rightarrow> None
      | i # rest \<Rightarrow> Some (fold max rest i))"

definition delete_last_warning :: "int \<Rightarrow> world \<Rightarrow> world" where
  "delete_last_warning warning_id w =
     w\<lparr>warnings := filter (\<lambda>r. w_id r \<noteq> warning_id) (warnings w)\<rparr>"

definition delete_all_user_warnings :: "int \<Rightarrow> int \<Rightarrow> world \<Rightarrow> world" where
  "delete_all_user_warnings user_id guild_id w =
     w\<lparr>warnings := filter (\<lambda>r. \<not> (w_user_id r = user_id \<and> w_guild_id r = guild_id)) (warnings w)\<rparr>"

definition get_all_active_punishments :: "world \<Rightarrow> (int \<times> int \<times> string \<times> string) list" where
  "get_all_active_punishments w =
     List.map_filter
       (\<lambda>r. case p_ends_at r of
               None \<Rightarrow> None
             | Some e \<Rightarrow> Some (p_user_id r, p_guild_id r, p_action r, e))
       (punishments w)"

definition delete_punishment :: "int \<Rightarrow> int \<Rightarrow> string \<Rightarrow> world \<Rightarrow> world" where
  "delete_punishment user_id guild_id action w =
     w\<lparr>punishments :=
          filter (\<lambda>r. \<not> (p_user_id r = user_id \<and> p_guild_id r = guild_id \<and> p_action r = action))
            (punishments w)\<rparr>"

section \<open>The Discord calls the cog awaits\<close>

text \<open>
  A call on a guild the bot no longer resolves raises \<^verbatim>\<open>NotFound\<close>; a call it lacks the
  permission for raises \<^verbatim>\<open>Forbidden\<close>; otherwise the guild is updated. A ban takes the
  user out of the members of the guild. Failures of the network, rate limits and the
  role hierarchy are not part of this picture of discord.py, and the calls of
  database.py are taken to succeed. Strings are compared as Python compares them.
\<close>

definition api :: "int \<Rightarrow> (guild \<Rightarrow> bool) \<Rightarrow> (guild \<Rightarrow> guild) \<Rightarrow> step" where
  "api gid allowed f w =
     (case guilds w gid of
        None \<Rightarrow> (Some NotFound, w)
      | Some g \<Rightarrow>
          if allowed g then (None, w\<lparr>guilds := (guilds w)(gid \<mapsto> f g)\<rparr>)
          else (Some Forbidden, w))"

definition create_role :: "int \<Rightarrow> step" where
  "create_role gid = api gid can_manage_roles (\<lambda>g. g\<lparr>muted_role := True, muted := {}\<rparr>)"

definition set_permissions :: "int \<Rightarrow> int \<Rightarrow> step" where
  "set_permissions gid channel =
     api gid can_manage_roles (\<lambda>g. g\<lparr>mute_overwrites := insert channel (mute_overwrites g)\<rparr>)"

definition add_roles :: "int \<Rightarrow> int \<Rightarrow> step" where
  "add_roles gid member = api gid can_manage_roles (\<lambda>g. g\<lparr>muted := insert member (muted g)\<rparr>)"

definition remove_roles :: "int \<Rightarrow> int \<Rightarrow> step" where
  "remove_roles gid member = api gid can_manage_roles (\<lambda>g. g\<lparr>muted := muted g - {member}\<rparr>)"

definition timeout_none :: "int \<Rightarrow> int \<Rightarrow> step" where
  "timeout_none gid member = api gid can_moderate (\<lambda>g. g\<lparr>timed_out := timed_out g - {member}\<rparr>)"

definition ban :: "int \<Rightarrow> int \<Rightarrow> step" where
  "ban gid member =
     api gid can_ban (\<lambda>g. g\<lparr>bans := insert member (bans g), members := members g - {member}\<rparr>)"

text \<open>\<^verbatim>\<open>guild.unban\<close> raises \<^verbatim>\<open>NotFound\<close> when the user has no ban entry.\<close>

definition unban :: "int \<Rightarrow> int \<Rightarrow> step" where
  "unban gid user_id w =
     (case guilds w gid of
        None \<Rightarrow> (Some NotFound, w)
      | Some g \<Rightarrow>
          if \<not> can_ban g then (Some Forbidden, w)
          else if user_id \<notin> bans g then (Some NotFound, w)
          else (None, w\<lparr>guilds := (guilds w)(gid \<mapsto> g\<lparr>bans := bans g - {user_id}\<rparr>)\<rparr>))"

text \<open>\<^verbatim>\<open>[entry async for entry in ctx.guild.bans()]\<close> needs the ban permission.\<close>

definition fetch_bans :: "int \<Rightarrow> step" where
  "fetch_bans gid = api gid can_ban (\<lambda>g. g)"

definition send :: "int \<Rightarrow> channel_ref \<Rightarrow> notice \<Rightarrow> step" where
  "send gid channel msg w =
     (case guilds w gid of
        None \<Rightarrow> (Some NotFound, w)
      | Some g \<Rightarrow>
          if can_send g then (None, w\<lparr>sent := sent w @ [(Some gid, channel, msg)]\<rparr>)
          else (Some Forbidden, w))"

text \<open>\<^verbatim>\<open>member.send\<close>: a direct message, \<^verbatim>\<open>Forbidden\<close> when the user does not accept them.\<close>

definition member_send :: "int \<Rightarrow> notice \<Rightarrow> step" where
  "member_send member msg w =
     (if member \<in> dm_closed w then (Some Forbidden, w)
      else (None, w\<lparr>sent := sent w @ [(None, DirectMessage member, msg)]\<rparr>))"

definition muted_role_exists :: "int \<Rightarrow> world \<Rightarrow> bool" where
  "muted_role_exists gid w = (case guilds w gid of None \<Rightarrow> False | Some g \<Rightarrow> muted_role g)"

definition has_muted_role :: "int \<Rightarrow> int \<Rightarrow> world \<Rightarrow> bool" where
  "has_muted_role gid member w =
     (case guilds w gid of None \<Rightarrow> False | Some g \<Rightarrow> muted_role g \<and> member \<in> muted g)"

definition is_banned :: "int \<Rightarrow> int \<Rightarrow> world \<Rightarrow> bool" where
  "is_banned gid member w = (case guilds w gid of None \<Rightarrow> False | Some g \<Rightarrow> member \<in> bans g)"

definition guild_channels :: "int \<Rightarrow> world \<Rightarrow> int list" where
  "guild_channels gid w = (case guilds w gid of None \<Rightarrow> [] | Some g \<Rightarrow> channels g)"

definition create_task :: "task \<Rightarrow> step" where
  "create_task t w = (None, w\<lparr>tasks := tasks w @ [t]\<rparr>)"

section \<open>cogs/moderation.py\<close>

definition send_log :: "int \<Rightarrow> notice \<Rightarrow> step" where
  "send_log gid msg w =
     (case log_channel_id w of
        None \<Rightarrow> (None, w)
      | Some c \<Rightarrow>
          if c = 0 then (None, w)
          else if c \<in> set (guild_channels gid w) then send gid (LogChannel c) msg w
          else (None, w))"

text \<open>
  What \<^verbatim>\<open>datetime.fromisoformat\<close> returns: a naive datetime, or one that carries a UTC
  offset. \<^verbatim>\<open>datetime.utcnow()\<close> is naive, and Python refuses to subtract a naive from an
  offset-aware datetime with \<^verbatim>\<open>TypeError\<close>.
\<close>

datatype parsed_datetime = Naive datetime | Aware datetime

text \<open>
  \<^verbatim>\<open>cog_load\<close>: one task per row read, in the order read. \<^verbatim>\<open>datetime.fromisoformat\<close> is
  the parameter \<open>fromisoformat\<close> (\<open>None\<close> where it raises \<^verbatim>\<open>ValueError\<close>), and \<open>utcnow i\<close> is
  what \<^verbatim>\<open>datetime.utcnow()\<close> returns in the iteration for the \<open>i\<close>-th row. An exception
  leaves the loop and the function: the rows not yet reached get no task.
\<close>

fun cog_load_rows ::
  "(string \<Rightarrow> parsed_datetime option) \<Rightarrow> (nat \<Rightarrow> datetime) \<Rightarrow> nat \<Rightarrow>
   (int \<times> int \<times> string \<times> string) list \<Rightarrow> step" where
  "cog_load_rows fromisoformat utcnow i [] w = (None, w)"
| "cog_load_rows fromisoformat utcnow i ((user_id, guild_id, action, ends_at_str) # rows) w =
     (case fromisoformat ends_at_str of
        None \<Rightarrow> (Some ValueError, w)
      | Some (Aware ends_at) \<Rightarrow> (Some TypeError, w)
      | Some (Naive ends_at) \<Rightarrow>
          (let now = utcnow i;
               delay = ends_at - now;
               delay = (if delay \<le> 0 then 0 else delay)
           in cog_load_rows fromisoformat utcnow (Suc i) rows
                (w\<lparr>tasks := tasks w @ [DelayedUnpunish user_id guild_id action delay]\<rparr>)))"

definition cog_load ::
  "(string \<Rightarrow> parsed_datetime option) \<Rightarrow> (nat \<Rightarrow> datetime) \<Rightarrow> step" where
  "cog_load fromisoformat utcnow w =
     cog_load_rows fromisoformat utcnow 0 (get_all_active_punishments w) w"

text \<open>\<^verbatim>\<open>_delayed_unpunish\<close> once its \<^verbatim>\<open>asyncio.sleep(delay)\<close> has returned.\<close>

definition delayed_unpunish :: "int \<Rightarrow> int \<Rightarrow> string \<Rightarrow> step" where
  "delayed_unpunish user_id guild_id action w =
     (case guilds w guild_id of
        None \<Rightarrow> (None, w)
      | Some g \<Rightarrow>
          if user_id \<notin> members g then (None, w)
          else
            do_all
              [if action = ''mute'' then
                 (if muted_role g \<and> user_id \<in> muted g then
                    do_all
                      [remove_roles guild_id user_id,
                       if general g then send guild_id GeneralChannel (MsgAutoUnmuted user_id) else ok]
                  else ok)
               else if action = ''ban'' then
                 try_except
                   (do_all
                      [unban guild_id user_id,
                       if general g then send guild_id GeneralChannel (MsgAutoUnbanned user_id) else ok])
                   NotFound ok
               else ok,
               (\<lambda>w'. (None, delete_punishment user_id guild_id action w'))] w)"

definition apply_punishment :: "int \<Rightarrow> int \<Rightarrow> ctx \<Rightarrow> step" where
  "apply_punishment member warnings_count c w =
     (case PUNISHMENTS warnings_count of
        None \<Rightarrow> (None, w)
      | Some (action, duration) \<Rightarrow>
          if action = ''mute'' then
            (let existed = muted_role_exists (ctx_guild c) w;
                 held = (existed \<and> has_muted_role (ctx_guild c) member w)
             in do_all
                  [if existed then ok
                   else do_all (create_role (ctx_guild c) #
                          map (set_permissions (ctx_guild c)) (guild_channels (ctx_guild c) w)),
                   if held then timeout_none (ctx_guild c) member else ok,
                   add_roles (ctx_guild c) member,
                   send (ctx_guild c) CtxChannel (MsgMuted member duration),
                   case duration of
                     None \<Rightarrow> ok
                   | Some d \<Rightarrow> if truthy duration then create_task (UnmuteLater c member d) else ok] w)
          else if action = ''ban'' then
            do_all
              [fetch_bans (ctx_guild c),
               (\<lambda>w'. if is_banned (ctx_guild c) member w' then
                        send (ctx_guild c) CtxChannel (MsgAlreadyBanned member) w'
                      else
                        do_all
                          [ban (ctx_guild c) member,
                           send (ctx_guild c) CtxChannel (MsgBanned member duration),
                           case duration of
                             None \<Rightarrow> ok
                           | Some d \<Rightarrow>
                               if truthy duration then create_task (UnbanLater c member d) else ok] w')] w
          else (None, w))"

definition adjust_punishment_after_change :: "int \<Rightarrow> int \<Rightarrow> ctx \<Rightarrow> step" where
  "adjust_punishment_after_change member warn_count c w =
     (if warn_count < 3 then
        do_all
          [if has_muted_role (ctx_guild c) member w then
             do_all
               [remove_roles (ctx_guild c) member,
                send (ctx_guild c) CtxChannel (MsgUnmutedBelowThreshold member)]
           else ok,
           try_except (timeout_none (ctx_guild c) member) Forbidden ok] w
      else (None, w))"

definition cmd_warn :: "ctx \<Rightarrow> int \<Rightarrow> string \<Rightarrow> string \<Rightarrow> step" where
  "cmd_warn c member reason timestamp w =
     (let w1 = add_warning member (ctx_guild c) (ctx_author c) reason timestamp w;
          total_warnings = get_warnings_count member (ctx_guild c) w1
      in do_all
           [send (ctx_guild c) CtxChannel (MsgWarned member total_warnings reason),
            try_except
              (do_all
                 [member_send member (MsgYouWereWarned reason total_warnings),
                  send_log (ctx_guild c) (LogWarned member (ctx_author c) reason)])
              Forbidden ok,
            if PUNISHMENTS total_warnings \<noteq> None then apply_punishment member total_warnings c
            else ok] w1)"

definition cmd_delwarn :: "ctx \<Rightarrow> int \<Rightarrow> step" where
  "cmd_delwarn c member w =
     (case get_one_user_warning member (ctx_guild c) w of
        None \<Rightarrow> send (ctx_guild c) CtxChannel (MsgNoWarnings member) w
      | Some row \<Rightarrow>
          do_all
            [send (ctx_guild c) CtxChannel (MsgRemovedLatest member),
             send_log (ctx_guild c) (LogRemovedWarning (ctx_author c) member),
             (\<lambda>w'. let warn_count = get_warnings_count member (ctx_guild c) w'
                    in do_all
                         [apply_punishment member warn_count c,
                          adjust_punishment_after_change member warn_count c] w')]
            (delete_last_warning row w))"

definition cmd_clearwarns :: "ctx \<Rightarrow> int \<Rightarrow> step" where
  "cmd_clearwarns c member w =
     do_all
       [send (ctx_guild c) CtxChannel (MsgCleared member),
        send_log (ctx_guild c) (LogCleared (ctx_author c) member),
        try_except (timeout_none (ctx_guild c) member) Forbidden ok,
        (\<lambda>w'. if has_muted_role (ctx_guild c) member w' then
                 try_except
                   (do_all
                      [remove_roles (ctx_guild c) member,
                       send (ctx_guild c) CtxChannel (MsgUnmuted member)])
                   Forbidden
                   (send (ctx_guild c) CtxChannel (MsgCannotUnmute member)) w'
               else (None, w')),
        try_except (unban (ctx_guild c) member) NotFound ok]
       (delete_all_user_warnings member (ctx_guild c) w)"

section \<open>The event loop\<close>

text \<open>The body a pending task runs when its sleep is over.\<close>

fun run_task :: "task \<Rightarrow> step" where
  "run_task (DelayedUnpunish user_id guild_id action delay) =
     delayed_unpunish user_id guild_id action"
| "run_task (UnmuteLater c member duration) =
     do_all [remove_roles (ctx_guild c) member, send (ctx_guild c) CtxChannel (MsgUnmuted member)]"
| "run_task (UnbanLater c member duration) =
     do_all
       [unban (ctx_guild c) member,
        send (ctx_guild c) CtxChannel (MsgUnbannedTemporary member)]"

text \<open>The \<open>i\<close>-th pending task wakes up: it leaves the pending tasks and runs its body.\<close>

definition fire :: "nat \<Rightarrow> step" where
  "fire i w =
     (if i < length (tasks w) then
        run_task (tasks w ! i) (w\<lparr>tasks := take i (tasks w) @ drop (Suc i) (tasks w)\<rparr>)
      else (None, w))"

text \<open>
  What can happen to a running bot: the three warning commands, a pending task waking
  up, the cog being loaded, and anything that leaves the database and the pending tasks
  alone (the commands purge, mute, unmute, kick, ban, unban and banlist only call
  Discord and send messages, and so do the members and moderators of a guild).
\<close>

datatype event =
    CmdWarn ctx int string string
  | CmdDelwarn ctx int
  | CmdClearwarns ctx int
  | Fire nat
  | CogLoad "string \<Rightarrow> parsed_datetime option" "nat \<Rightarrow> datetime"
  | Elsewhere "world \<Rightarrow> world"

fun exec :: "event \<Rightarrow> world \<Rightarrow> world" where
  "exec (CmdWarn c member reason timestamp) w = snd (cmd_warn c member reason timestamp w)"
| "exec (CmdDelwarn c member) w = snd (cmd_delwarn c member w)"
| "exec (CmdClearwarns c member) w = snd (cmd_clearwarns c member w)"
| "exec (Fire i) w = snd (fire i w)"
| "exec (CogLoad fromisoformat utcnow) w = snd (cog_load fromisoformat utcnow w)"
| "exec (Elsewhere f) w =
     w\<lparr>guilds := guilds (f w), dm_closed := dm_closed (f w), sent := sent (f w)\<rparr>"

fun run :: "event list \<Rightarrow> world \<Rightarrow> world" where
  "run [] w = w"
| "run (e # es) w = run es (exec e w)"

section \<open>Relations between the world before and after a step\<close>

definition keeps :: "(world \<Rightarrow> world \<Rightarrow> bool) \<Rightarrow> step \<Rightarrow> bool" where
  "keeps R s = (\<forall>w. R w (snd (s w)))"

text \<open>An observation of the world has the value it had before.\<close>

definition same :: "(world \<Rightarrow> 'a) \<Rightarrow> world \<Rightarrow> world \<Rightarrow> bool" where
  "same obs w w' = (obs w' = obs w)"

text \<open>Observations that do not look at Discord or at the messages sent.\<close>

definition discord_blind :: "(world \<Rightarrow> 'a) \<Rightarrow> bool" where
  "discord_blind obs =
     (\<forall>w g s. obs (w\<lparr>guilds := g\<rparr>) = obs w \<and> obs (w\<lparr>sent := s\<rparr>) = obs w)"

text \<open>Observations that do not see a closure of \<^verbatim>\<open>apply_punishment\<close> being scheduled.\<close>

definition closure_blind :: "(world \<Rightarrow> 'a) \<Rightarrow> bool" where
  "closure_blind obs =
     (\<forall>w c member d.
        obs (w\<lparr>tasks := tasks w @ [UnmuteLater c member d]\<rparr>) = obs w \<and>
        obs (w\<lparr>tasks := tasks w @ [UnbanLater c member d]\<rparr>) = obs w)"


section \<open>Example worlds\<close>

text \<open>A guild in which the bot may do everything, with member 1 and two channels; the
  role "Muted" does not exist yet.\<close>

definition guild_a :: guild where
  "guild_a =
     \<lparr>muted_role = False, muted = {}, timed_out = {}, members = {1}, bans = {},
      channels = [100, 101], mute_overwrites = {}, general = True,
      can_manage_roles = True, can_moderate = True, can_ban = True, can_send = True\<rparr>"

definition ctx_a :: ctx where
  "ctx_a = \<lparr>ctx_guild = 10, ctx_author = 7\<rparr>"

text \<open>A freshly started bot in guild 10 with empty tables.\<close>

definition world_a :: world where
  "world_a =
     \<lparr>warnings = [], warnings_auto_increment = 1, punishments = [],
      guilds = [10 \<mapsto> guild_a], dm_closed = {}, log_channel_id = None,
      tasks = [], sent = []\<rparr>"

text \<open>The same bot started on a punishments table that holds one expiring mute of member 1
  of guild 10, with the task that \<^verbatim>\<open>cog_load\<close> schedules for it.\<close>

definition world_b :: world where
  "world_b =
     world_a
       \<lparr>punishments :=
          [\<lparr>p_id = 1, p_user_id = 1, p_guild_id = 10, p_action = ''mute'',
            p_ends_at = Some ''2020-01-01T00:00:00''\<rparr>],
        guilds := [10 \<mapsto> guild_a\<lparr>muted_role := True, muted := {1}\<rparr>],
        tasks := [DelayedUnpunish 1 10 ''mute'' 0]\<rparr>"

text \<open>A parser that knows three timestamps, one of them with a UTC offset, and a clock
  between the first and the other two.\<close>

definition fromisoformat_a :: "string \<Rightarrow> parsed_datetime option" where
  "fromisoformat_a s =
     (if s = ''2020-01-01T00:00:00'' then Some (Naive 1577836800000000)
      else if s = ''2030-01-01T00:00:00'' then Some (Naive 1893456000000000)
      else if s = ''2030-01-01T00:00:00+00:00'' then Some (Aware 1893456000000000)
      else None)"

definition utcnow_a :: "nat \<Rightarrow> datetime" where
  "utcnow_a i = 1793000000000000 + int i"


text \<open>Guild 10 with the members 1 and 2. The table holds one mute of member 1 that expires
  in 2030, and the task that \<^verbatim>\<open>cog_load\<close> schedules for it at the clock \<open>utcnow_a\<close> is
  pending.\<close>

definition world_d :: world where
  "world_d =
     world_a
       \<lparr>punishments :=
          [\<lparr>p_id = 1, p_user_id = 1, p_guild_id = 10, p_action = ''mute'',
            p_ends_at = Some ''2030-01-01T00:00:00''\<rparr>],
        guilds := [10 \<mapsto> guild_a\<lparr>muted_role := True, muted := {1}, members := {1, 2}\<rparr>],
        tasks := [DelayedUnpunish 1 10 ''mute'' 100456000000000]\<rparr>"

text \<open>A bot about to start on a table of two rows: a mute of member 1 with the expiry text
  \<open>s\<close>, and after it a mute of member 2 that expired in 2020.\<close>

definition world_e :: "string \<Rightarrow> world" where
  "world_e s =
     world_a
       \<lparr>punishments :=
          [\<lparr>p_id = 1, p_user_id = 1, p_guild_id = 10, p_action = ''mute'', p_ends_at = Some s\<rparr>,
           \<lparr>p_id = 2, p_user_id = 2, p_guild_id = 10, p_action = ''mute'',
            p_ends_at = Some ''2020-01-01T00:00:00''\<rparr>],
        guilds := [10 \<mapsto> guild_a\<lparr>muted_role := True, muted := {1, 2}, members := {1, 2}\<rparr>]\<rparr>"


section \<open>Notions the claims are stated with\<close>

text \<open>A row as \<^verbatim>\<open>get_all_active_punishments\<close> returns it has an expiry that \<^verbatim>\<open>cog_load\<close> can use
  when the text parses to a naive datetime; \<open>expiry\<close> is the instant it parses to. The
  task \<^verbatim>\<open>cog_load\<close> creates for the \<open>i\<close>-th row, and the exception the first unusable row
  raises.\<close>

definition naive_expiry ::
  "(string \<Rightarrow> parsed_datetime option) \<Rightarrow> int \<times> int \<times> string \<times> string \<Rightarrow> bool" where
  "naive_expiry fromisoformat row =
     (case fromisoformat (snd (snd (snd row))) of Some (Naive t) \<Rightarrow> True | _ \<Rightarrow> False)"

definition expiry :: "(string \<Rightarrow> parsed_datetime option) \<Rightarrow> string \<Rightarrow> datetime" where
  "expiry fromisoformat s =
     (case fromisoformat s of Some (Naive t) \<Rightarrow> t | Some (Aware t) \<Rightarrow> t | None \<Rightarrow> 0)"

definition recovery_task ::
  "(string \<Rightarrow> parsed_datetime option) \<Rightarrow> (nat \<Rightarrow> datetime) \<Rightarrow>
   nat \<times> int \<times> int \<times> string \<times> string \<Rightarrow> task" where
  "recovery_task fromisoformat utcnow =
     (\<lambda>(i, (u, g, a, e)). DelayedUnpunish u g a (max 0 (expiry fromisoformat e - utcnow i)))"

definition first_error ::
  "(string \<Rightarrow> parsed_datetime option) \<Rightarrow> (int \<times> int \<times> string \<times> string) list \<Rightarrow> exn option" where
  "first_error fromisoformat rows =
     (case dropWhile (naive_expiry fromisoformat) rows of
        [] \<Rightarrow> None
      | row # _ \<Rightarrow>
          (case fromisoformat (snd (snd (snd row))) of
             None \<Rightarrow> Some ValueError
           | Some _ \<Rightarrow> Some TypeError))"


text \<open>The key of a punishment row, and the key a pending task works on: the task of
  \<^verbatim>\<open>cog_load\<close> carries it, \<^verbatim>\<open>unmute_later\<close> and \<^verbatim>\<open>unban_later\<close> reverse the mute and the ban of
  the member and guild they captured.\<close>

type_synonym key = "int \<times> int \<times> string"

definition row_key :: "punishment_row \<Rightarrow> key" where
  "row_key r = (p_user_id r, p_guild_id r, p_action r)"

fun task_key :: "task \<Rightarrow> key" where
  "task_key (DelayedUnpunish user_id guild_id action delay) = (user_id, guild_id, action)"
| "task_key (UnmuteLater c member duration) = (member, ctx_guild c, ''mute'')"
| "task_key (UnbanLater c member duration) = (member, ctx_guild c, ''ban'')"

fun is_recovery :: "task \<Rightarrow> bool" where
  "is_recovery (DelayedUnpunish user_id guild_id action delay) = True"
| "is_recovery (UnmuteLater c member duration) = False"
| "is_recovery (UnbanLater c member duration) = False"

definition expiring_rows :: "world \<Rightarrow> punishment_row list" where
  "expiring_rows w = filter (\<lambda>r. p_ends_at r \<noteq> None) (punishments w)"

text \<open>The pending tasks for a key, and those among them that \<^verbatim>\<open>cog_load\<close> scheduled.\<close>

definition live_timers :: "key \<Rightarrow> world \<Rightarrow> nat" where
  "live_timers k w = length (filter (\<lambda>t. task_key t = k) (tasks w))"

definition recovery_timers :: "key \<Rightarrow> world \<Rightarrow> nat" where
  "recovery_timers k w = length (filter (\<lambda>t. is_recovery t \<and> task_key t = k) (tasks w))"

definition one_timer_per_row :: "world \<Rightarrow> bool" where
  "one_timer_per_row w = (\<forall>r \<in> set (expiring_rows w). live_timers (row_key r) w = 1)"

definition one_recovery_timer_per_row :: "world \<Rightarrow> bool" where
  "one_recovery_timer_per_row w =
     (\<forall>r \<in> set (expiring_rows w). recovery_timers (row_key r) w = 1)"

section \<open>What a step leaves unchanged\<close>


lemma keepsD: "keeps R s \<Longrightarrow> R w (snd (s w))"
  by (simp add: keeps_def)

lemma keeps_ok: "reflp R \<Longrightarrow> keeps R ok"
  by (simp add: keeps_def ok_def reflp_def)

lemma keeps_do_all:
  assumes "reflp R" "transp R" "\<And>s. s \<in> set ss \<Longrightarrow> keeps R s"
  shows "keeps R (do_all ss)"
  unfolding keeps_def
proof
  fix w
  from assms(3) show "R w (snd (do_all ss w))"
  proof (induction ss arbitrary: w)
    case Nil
    then show ?case using assms(1) by (simp add: reflp_def)
  next
    case (Cons s ss)
    have s: "R w (snd (s w))" using Cons.prems[of s] by (simp add: keeps_def)
    show ?case
    proof (cases "s w")
      case (Pair r w')
      show ?thesis
      proof (cases r)
        case None
        have "R w' (snd (do_all ss w'))" using Cons.IH Cons.prems by simp
        then show ?thesis using s Pair None assms(2) by (auto simp: transp_def)
      next
        case (Some e)
        then show ?thesis using s Pair by simp
      qed
    qed
  qed
qed

lemma keeps_try_except:
  assumes "transp R" "keeps R b" "keeps R h"
  shows "keeps R (try_except b e h)"
  using assms unfolding keeps_def try_except_def transp_def
  by (auto split: prod.splits option.splits) (metis snd_conv)+

lemma keeps_if: "keeps R a \<Longrightarrow> keeps R b \<Longrightarrow> keeps R (if P then a else b)"
  by simp

lemma keeps_cond: "keeps R a \<Longrightarrow> keeps R b \<Longrightarrow> keeps R (\<lambda>w. if P w then a w else b w)"
  by (simp add: keeps_def)

lemma reflp_same: "reflp (same obs)"
  by (simp add: reflp_def same_def)

lemma transp_same: "transp (same obs)"
  by (simp add: transp_def same_def)

lemma same_ok: "keeps (same obs) ok"
  by (simp add: keeps_ok reflp_same)

lemma same_do_all: "(\<And>s. s \<in> set ss \<Longrightarrow> keeps (same obs) s) \<Longrightarrow> keeps (same obs) (do_all ss)"
  by (rule keeps_do_all[OF reflp_same transp_same])

lemma same_try_except:
  "keeps (same obs) b \<Longrightarrow> keeps (same obs) h \<Longrightarrow> keeps (same obs) (try_except b e h)"
  by (rule keeps_try_except[OF transp_same])

lemma same_do_all_Nil: "keeps (same obs) (do_all [])"
  by (simp add: keeps_def same_def)

lemma same_do_all_Cons:
  "keeps (same obs) s \<Longrightarrow> keeps (same obs) (do_all ss) \<Longrightarrow> keeps (same obs) (do_all (s # ss))"
  by (auto simp: keeps_def same_def split: prod.splits option.splits) (metis snd_conv)+

lemma same_do_all_map:
  "(\<And>x. keeps (same obs) (f x)) \<Longrightarrow> keeps (same obs) (do_all (map f xs))"
  by (rule same_do_all) auto

lemma keeps_case_option:
  "keeps R a \<Longrightarrow> (\<And>d. keeps R (b d)) \<Longrightarrow> keeps R (case x of None \<Rightarrow> a | Some d \<Rightarrow> b d)"
  by (cases x) simp_all

lemma same_api: "discord_blind obs \<Longrightarrow> keeps (same obs) (api gid allowed f)"
  by (simp add: keeps_def same_def api_def discord_blind_def split: option.splits)

lemma same_send: "discord_blind obs \<Longrightarrow> keeps (same obs) (send gid ch msg)"
  by (simp add: keeps_def same_def send_def discord_blind_def split: option.splits)

lemma same_unban: "discord_blind obs \<Longrightarrow> keeps (same obs) (unban gid u)"
  by (simp add: keeps_def same_def unban_def discord_blind_def split: option.splits)

lemma same_member_send: "discord_blind obs \<Longrightarrow> keeps (same obs) (member_send u msg)"
  by (simp add: keeps_def same_def member_send_def discord_blind_def)

lemma same_send_log: "discord_blind obs \<Longrightarrow> keeps (same obs) (send_log gid msg)"
  using same_send[of obs gid]
  by (simp add: keeps_def same_def send_log_def split: option.splits)

lemma same_create_role: "discord_blind obs \<Longrightarrow> keeps (same obs) (create_role gid)"
  by (simp add: create_role_def same_api)

lemma same_set_permissions: "discord_blind obs \<Longrightarrow> keeps (same obs) (set_permissions gid ch)"
  by (simp add: set_permissions_def same_api)

lemma same_add_roles: "discord_blind obs \<Longrightarrow> keeps (same obs) (add_roles gid m)"
  by (simp add: add_roles_def same_api)

lemma same_remove_roles: "discord_blind obs \<Longrightarrow> keeps (same obs) (remove_roles gid m)"
  by (simp add: remove_roles_def same_api)

lemma same_timeout_none: "discord_blind obs \<Longrightarrow> keeps (same obs) (timeout_none gid m)"
  by (simp add: timeout_none_def same_api)

lemma same_ban: "discord_blind obs \<Longrightarrow> keeps (same obs) (ban gid m)"
  by (simp add: ban_def same_api)

lemma same_fetch_bans: "discord_blind obs \<Longrightarrow> keeps (same obs) (fetch_bans gid)"
  by (simp add: fetch_bans_def same_api)

lemmas same_discord =
  same_send same_unban same_member_send same_send_log same_create_role same_set_permissions
  same_add_roles same_remove_roles same_timeout_none same_ban same_fetch_bans

lemmas same_structure =
  same_ok same_do_all_Nil same_do_all_Cons same_do_all_map same_try_except keeps_if keeps_cond
  keeps_case_option

lemma same_create_task_closure:
  "closure_blind obs \<Longrightarrow> keeps (same obs) (create_task (UnmuteLater c m d))"
  "closure_blind obs \<Longrightarrow> keeps (same obs) (create_task (UnbanLater c m d))"
  by (simp_all add: keeps_def same_def create_task_def closure_blind_def)

lemma same_apply_punishment:
  assumes "discord_blind obs" "closure_blind obs"
  shows "keeps (same obs) (apply_punishment member n c)"
proof -
  note calls = same_discord[OF assms(1)] same_create_task_closure[OF assms(2)]
  have mute: "keeps (same obs)
       (do_all
          [if existed then ok
           else do_all (create_role (ctx_guild c) # map (set_permissions (ctx_guild c)) chans),
           if held then timeout_none (ctx_guild c) member else ok,
           add_roles (ctx_guild c) member,
           send (ctx_guild c) CtxChannel (MsgMuted member duration),
           case duration of
             None \<Rightarrow> ok
           | Some d \<Rightarrow> if truthy duration then create_task (UnmuteLater c member d) else ok])"
    for existed held chans duration
    by (intro same_structure calls)
  have ban: "keeps (same obs)
       (do_all
          [fetch_bans (ctx_guild c),
           (\<lambda>w'. if is_banned (ctx_guild c) member w' then
                    send (ctx_guild c) CtxChannel (MsgAlreadyBanned member) w'
                  else
                    do_all
                      [ban (ctx_guild c) member,
                       send (ctx_guild c) CtxChannel (MsgBanned member duration),
                       case duration of
                         None \<Rightarrow> ok
                       | Some d \<Rightarrow>
                           if truthy duration then create_task (UnbanLater c member d) else ok] w')])"
    for duration
    by (intro same_structure calls)
  show ?thesis
    unfolding keeps_def
  proof
    fix w
    show "same obs w (snd (apply_punishment member n c w))"
    proof (cases "PUNISHMENTS n")
      case None
      then show ?thesis by (simp add: apply_punishment_def same_def)
    next
      case (Some p)
      obtain action duration where p: "p = (action, duration)" by (cases p)
      consider (m) "action = ''mute''" | (b) "action \<noteq> ''mute''" "action = ''ban''"
        | (other) "action \<noteq> ''mute''" "action \<noteq> ''ban''" by blast
      then show ?thesis
      proof cases
        case m
        then have t: "(action = ''mute'') = True" by simp
        show ?thesis
          by (simp only: apply_punishment_def Let_def Some p option.case prod.case t if_True)
            (rule keepsD[OF mute])
      next
        case b
        then have f: "(action = ''mute'') = False" and t: "(action = ''ban'') = True" by simp_all
        show ?thesis
          by (simp only: apply_punishment_def Let_def Some p option.case prod.case f t if_True if_False)
            (rule keepsD[OF ban])
      next
        case other
        then show ?thesis
          by (simp add: apply_punishment_def Some p same_def)
      qed
    qed
  qed
qed

lemma same_adjust:
  assumes "discord_blind obs"
  shows "keeps (same obs) (adjust_punishment_after_change member n c)"
proof -
  note calls = same_discord[OF assms(1)]
  have body: "keeps (same obs)
       (do_all
          [if held then
             do_all
               [remove_roles (ctx_guild c) member,
                send (ctx_guild c) CtxChannel (MsgUnmutedBelowThreshold member)]
           else ok,
           try_except (timeout_none (ctx_guild c) member) Forbidden ok])"
    for held
    by (intro same_structure calls)
  show ?thesis
    unfolding keeps_def
  proof
    fix w
    show "same obs w (snd (adjust_punishment_after_change member n c w))"
    proof (cases "n < 3")
      case True
      show ?thesis
        by (simp only: adjust_punishment_after_change_def True if_True) (rule keepsD[OF body])
    next
      case False
      then show ?thesis by (simp add: adjust_punishment_after_change_def same_def)
    qed
  qed
qed


lemma same_keepsD: "keeps (same obs) s \<Longrightarrow> obs (snd (s w)) = obs w"
  by (simp add: keeps_def same_def)

lemma cmd_warn_obs:
  assumes "discord_blind obs" "closure_blind obs"
  shows "obs (snd (cmd_warn c member reason timestamp w)) =
         obs (add_warning member (ctx_guild c) (ctx_author c) reason timestamp w)"
proof -
  note calls = same_discord[OF assms(1)] same_apply_punishment[OF assms]
  have body: "keeps (same obs)
       (do_all
          [send (ctx_guild c) CtxChannel (MsgWarned member total reason),
           try_except
             (do_all
                [member_send member (MsgYouWereWarned reason total),
                 send_log (ctx_guild c) (LogWarned member (ctx_author c) reason)])
             Forbidden ok,
           if PUNISHMENTS total \<noteq> None then apply_punishment member total c else ok])"
    for total
    by (intro same_structure calls)
  show ?thesis
    by (simp only: cmd_warn_def Let_def) (rule same_keepsD[OF body])
qed

lemma cmd_delwarn_obs:
  assumes "discord_blind obs" "closure_blind obs"
  shows "obs (snd (cmd_delwarn c member w)) =
         (case get_one_user_warning member (ctx_guild c) w of
            None \<Rightarrow> obs w
          | Some row \<Rightarrow> obs (delete_last_warning row w))"
proof -
  note calls = same_discord[OF assms(1)] same_apply_punishment[OF assms] same_adjust[OF assms(1)]
  have inner: "keeps (same obs)
       (\<lambda>w'. let warn_count = get_warnings_count member (ctx_guild c) w'
              in do_all
                   [apply_punishment member warn_count c,
                    adjust_punishment_after_change member warn_count c] w')"
  proof -
    have "keeps (same obs)
       (do_all [apply_punishment member n c, adjust_punishment_after_change member n c])" for n
      by (intro same_structure calls)
    from this[THEN keepsD] show ?thesis
      by (simp add: keeps_def Let_def del: do_all.simps)
  qed
  have body: "keeps (same obs)
       (do_all
          [send (ctx_guild c) CtxChannel (MsgRemovedLatest member),
           send_log (ctx_guild c) (LogRemovedWarning (ctx_author c) member),
           (\<lambda>w'. let warn_count = get_warnings_count member (ctx_guild c) w'
                  in do_all
                       [apply_punishment member warn_count c,
                        adjust_punishment_after_change member warn_count c] w')])"
    by (intro same_structure calls inner)
  show ?thesis
  proof (cases "get_one_user_warning member (ctx_guild c) w")
    case None
    then show ?thesis
      by (simp add: cmd_delwarn_def same_keepsD[OF same_send[OF assms(1)]])
  next
    case (Some row)
    show ?thesis
      by (simp only: cmd_delwarn_def Some option.case) (rule same_keepsD[OF body])
  qed
qed

lemma cmd_clearwarns_obs:
  assumes "discord_blind obs"
  shows "obs (snd (cmd_clearwarns c member w)) =
         obs (delete_all_user_warnings member (ctx_guild c) w)"
proof -
  note calls = same_discord[OF assms(1)]
  have body: "keeps (same obs)
       (do_all
       [send (ctx_guild c) CtxChannel (MsgCleared member),
        send_log (ctx_guild c) (LogCleared (ctx_author c) member),
        try_except (timeout_none (ctx_guild c) member) Forbidden ok,
        (\<lambda>w'. if has_muted_role (ctx_guild c) member w' then
                 try_except
                   (do_all
                      [remove_roles (ctx_guild c) member,
                       send (ctx_guild c) CtxChannel (MsgUnmuted member)])
                   Forbidden
                   (send (ctx_guild c) CtxChannel (MsgCannotUnmute member)) w'
               else (None, w')),
        try_except (unban (ctx_guild c) member) NotFound ok])"
    by (intro same_structure[unfolded ok_def] same_structure calls) 
  show ?thesis
    by (simp only: cmd_clearwarns_def) (rule same_keepsD[OF body])
qed

lemma blind_warnings: "discord_blind warnings" "closure_blind warnings"
  by (simp_all add: discord_blind_def closure_blind_def)

lemma blind_punishments: "discord_blind punishments" "closure_blind punishments"
  by (simp_all add: discord_blind_def closure_blind_def)

lemma blind_tasks: "discord_blind tasks"
  by (simp_all add: discord_blind_def)


section \<open>The punishment policy\<close>

text \<open>
  Claim C7. The policy is the dictionary lookup \<open>PUNISHMENTS\<close>, a function of the count
  alone: it returns (mute, 1h) for 3, (mute, 12h) for 4, (mute, 24h) for 5, (mute, 168h)
  for 6, (mute, 672h) for 7, (ban, permanent) for 8 and no action for every other
  count, those above 8 and the negative ones included; the membership test of
  \<^verbatim>\<open>cmd_warn\<close> and \<^verbatim>\<open>apply_punishment\<close> succeeds exactly on the counts 3 to 8.
\<close>

theorem punishments_exact_match:
  "PUNISHMENTS c =
     (if c = 3 then Some (''mute'', Some (hours 1))
      else if c = 4 then Some (''mute'', Some (hours 12))
      else if c = 5 then Some (''mute'', Some (hours 24))
      else if c = 6 then Some (''mute'', Some (hours 168))
      else if c = 7 then Some (''mute'', Some (hours 672))
      else if c = 8 then Some (''ban'', None)
      else None) \<and>
   (PUNISHMENTS c \<noteq> None) = (3 \<le> c \<and> c \<le> 8) \<and>
   PUNISHMENTS 9 = None \<and> PUNISHMENTS 10 = None \<and>
   hours 1 = 60 * 60 * 1000000"
  by (simp add: PUNISHMENTS_def hours_def)

section \<open>Warnings\<close>

lemma get_warnings_count_add_warning:
  "get_warnings_count member gid (add_warning member gid moderator reason timestamp w) =
   get_warnings_count member gid w + 1"
  by (simp add: get_warnings_count_def user_warnings_def add_warning_def)

lemma count_from_warnings:
  "warnings w' = warnings w \<Longrightarrow> get_warnings_count member gid w' = get_warnings_count member gid w"
  by (simp add: get_warnings_count_def user_warnings_def)

text \<open>
  Claim C8. Whatever the world and whatever the outcome of the command (a notification
  that raises included), \<^verbatim>\<open>cmd_warn\<close> leaves the warnings table with exactly one more row,
  the new warning of the member at the end, and the count of the pair is the previous
  count plus one.
\<close>

theorem cmd_warn_appends_one_warning:
  "warnings (snd (cmd_warn c member reason timestamp w)) =
     warnings w @
       [\<lparr>w_id = warnings_auto_increment w, w_user_id = member, w_guild_id = ctx_guild c,
         w_moderator_id = ctx_author c, w_reason = reason, w_timestamp = timestamp,
         w_ended_at = None\<rparr>] \<and>
   get_warnings_count member (ctx_guild c) (snd (cmd_warn c member reason timestamp w)) =
     get_warnings_count member (ctx_guild c) w + 1"
proof -
  let ?w1 = "add_warning member (ctx_guild c) (ctx_author c) reason timestamp w"
  have eq: "warnings (snd (cmd_warn c member reason timestamp w)) = warnings ?w1"
    by (rule cmd_warn_obs[OF blind_warnings])
  have "get_warnings_count member (ctx_guild c) (snd (cmd_warn c member reason timestamp w)) =
        get_warnings_count member (ctx_guild c) ?w1"
    by (rule count_from_warnings[OF eq])
  then show ?thesis
    using eq by (simp add: get_warnings_count_add_warning) (simp add: add_warning_def)
qed

text \<open>The command channel refuses the message: the command ends with \<^verbatim>\<open>Forbidden\<close>, and
  the warning is in the table.\<close>

lemma cmd_warn_send_forbidden_example:
  "fst (cmd_warn ctx_a 1 ''spam'' ''t0''
          (world_a\<lparr>guilds := [10 \<mapsto> guild_a\<lparr>can_send := False\<rparr>]\<rparr>)) = Some Forbidden \<and>
   get_warnings_count 1 10
     (snd (cmd_warn ctx_a 1 ''spam'' ''t0''
             (world_a\<lparr>guilds := [10 \<mapsto> guild_a\<lparr>can_send := False\<rparr>]\<rparr>))) = 1"
  by (simp add: cmd_warn_def world_a_def guild_a_def ctx_a_def add_warning_def
      get_warnings_count_def user_warnings_def send_def)


section \<open>Pending tasks and the punishments table\<close>

lemma do_all_two:
  "do_all [s, t] w = (case s w of (None, w') \<Rightarrow> t w' | (Some e, w') \<Rightarrow> (Some e, w'))"
  by (auto split: prod.splits option.splits)

lemma delayed_unpunish_unresolved:
  "guilds w guild_id = None \<or> (\<exists>g. guilds w guild_id = Some g \<and> user_id \<notin> members g) \<Longrightarrow>
   delayed_unpunish user_id guild_id action w = (None, w)"
  by (auto simp: delayed_unpunish_def)

lemma delayed_unpunish_resolved:
  assumes g: "guilds w guild_id = Some g" and m: "user_id \<in> members g"
    and r: "delayed_unpunish user_id guild_id action w = (r, w')"
  shows "warnings w' = warnings w \<and> warnings_auto_increment w' = warnings_auto_increment w \<and>
         tasks w' = tasks w \<and>
         punishments w' =
           (if r = None then
              filter (\<lambda>row. \<not> (p_user_id row = user_id \<and> p_guild_id row = guild_id \<and>
                                 p_action row = action)) (punishments w)
            else punishments w)"
proof -
  let ?obs = "\<lambda>w. (warnings w, warnings_auto_increment w, tasks w, punishments w)"
  let ?reverse = "if action = ''mute'' then
                 (if muted_role g \<and> user_id \<in> muted g then
                    do_all
                      [remove_roles guild_id user_id,
                       if general g then send guild_id GeneralChannel (MsgAutoUnmuted user_id) else ok]
                  else ok)
               else if action = ''ban'' then
                 try_except
                   (do_all
                      [unban guild_id user_id,
                       if general g then send guild_id GeneralChannel (MsgAutoUnbanned user_id) else ok])
                   NotFound ok
               else ok"
  have blind: "discord_blind ?obs" by (simp add: discord_blind_def)
  have "keeps (same ?obs) ?reverse"
    by (intro same_structure same_discord[OF blind])
  then have obs: "?obs (snd (?reverse w)) = ?obs w" by (rule same_keepsD)
  have unfold: "delayed_unpunish user_id guild_id action w =
      do_all [?reverse, (\<lambda>w'. (None, delete_punishment user_id guild_id action w'))] w"
    using g m by (simp add: delayed_unpunish_def del: do_all.simps)
  obtain r1 w1 where rev: "?reverse w = (r1, w1)" by (cases "?reverse w")
  from obs rev have w1: "?obs w1 = ?obs w" by simp
  show ?thesis
  proof (cases r1)
    case None
    with r rev unfold have "r = None" "w' = delete_punishment user_id guild_id action w1"
      by (simp_all only: do_all_two prod.case option.case prod.inject simp_thms)
    then show ?thesis using w1 by (simp add: delete_punishment_def)
  next
    case (Some e)
    with r rev unfold have "r = Some e" "w' = w1"
      by (simp_all only: do_all_two prod.case option.case prod.inject simp_thms)
    then show ?thesis using w1 by simp
  qed
qed

lemma delayed_unpunish_frame:
  "warnings (snd (delayed_unpunish u g a w)) = warnings w \<and>
   warnings_auto_increment (snd (delayed_unpunish u g a w)) = warnings_auto_increment w \<and>
   tasks (snd (delayed_unpunish u g a w)) = tasks w \<and>
   (\<exists>P. punishments (snd (delayed_unpunish u g a w)) = filter P (punishments w))"
proof (cases "\<exists>gu. guilds w g = Some gu \<and> u \<in> members gu")
  case True
  then obtain gu where gu: "guilds w g = Some gu" "u \<in> members gu" by blast
  obtain r w' where r: "delayed_unpunish u g a w = (r, w')" by (cases "delayed_unpunish u g a w")
  from delayed_unpunish_resolved[OF gu r] r show ?thesis
    by (cases "r = None") (auto intro: exI[of _ "\<lambda>_. True"])
next
  case False
  then have "delayed_unpunish u g a w = (None, w)"
    by (intro delayed_unpunish_unresolved) (cases "guilds w g", auto)
  then show ?thesis by (auto intro: exI[of _ "\<lambda>_. True"])
qed


lemma run_task_frame:
  "warnings (snd (run_task t w)) = warnings w \<and>
   warnings_auto_increment (snd (run_task t w)) = warnings_auto_increment w \<and>
   tasks (snd (run_task t w)) = tasks w \<and>
   (\<exists>P. punishments (snd (run_task t w)) = filter P (punishments w))"
proof (cases t)
  case (DelayedUnpunish u g a d)
  then show ?thesis using delayed_unpunish_frame[of u g a w] by simp
next
  case (UnmuteLater c member d)
  let ?obs = "\<lambda>w. (warnings w, warnings_auto_increment w, tasks w, punishments w)"
  have blind: "discord_blind ?obs" by (simp add: discord_blind_def)
  have "keeps (same ?obs) (run_task t)"
    unfolding UnmuteLater run_task.simps by (intro same_structure same_discord[OF blind])
  from same_keepsD[OF this, of w] show ?thesis by (auto intro: exI[of _ "\<lambda>_. True"])
next
  case (UnbanLater c member d)
  let ?obs = "\<lambda>w. (warnings w, warnings_auto_increment w, tasks w, punishments w)"
  have blind: "discord_blind ?obs" by (simp add: discord_blind_def)
  have "keeps (same ?obs) (run_task t)"
    unfolding UnbanLater run_task.simps by (intro same_structure same_discord[OF blind])
  from same_keepsD[OF this, of w] show ?thesis by (auto intro: exI[of _ "\<lambda>_. True"])
qed

lemma fire_frame:
  "warnings (snd (fire i w)) = warnings w \<and>
   warnings_auto_increment (snd (fire i w)) = warnings_auto_increment w \<and>
   tasks (snd (fire i w)) =
     (if i < length (tasks w) then take i (tasks w) @ drop (Suc i) (tasks w) else tasks w) \<and>
   (\<exists>P. punishments (snd (fire i w)) = filter P (punishments w))"
proof (cases "i < length (tasks w)")
  case True
  then show ?thesis
    using run_task_frame[of "tasks w ! i" "w\<lparr>tasks := take i (tasks w) @ drop (Suc i) (tasks w)\<rparr>"]
    by (simp add: fire_def)
next
  case False
  then show ?thesis by (auto simp: fire_def intro: exI[of _ "\<lambda>_. True"])
qed

lemma cog_load_rows_tasks:
  "\<exists>r ts. cog_load_rows fromisoformat utcnow i rows w = (r, w\<lparr>tasks := tasks w @ ts\<rparr>)"
proof (induction rows arbitrary: i w)
  case Nil
  show ?case by (auto intro: exI[of _ "[]"])
next
  case (Cons row rows)
  obtain u g a e where row: "row = (u, g, a, e)" by (cases row)
  show ?case
  proof (cases "fromisoformat e")
    case None
    then show ?thesis using row by (auto intro: exI[of _ "[]"])
  next
    case (Some p)
    show ?thesis
    proof (cases p)
      case (Aware ends_at)
      then show ?thesis using row Some by (auto intro: exI[of _ "[]"])
    next
      case (Naive ends_at)
      let ?t = "DelayedUnpunish u g a (if ends_at - utcnow i \<le> 0 then 0 else ends_at - utcnow i)"
      from Cons.IH[of "Suc i" "w\<lparr>tasks := tasks w @ [?t]\<rparr>"]
      obtain r ts where
        "cog_load_rows fromisoformat utcnow (Suc i) rows (w\<lparr>tasks := tasks w @ [?t]\<rparr>) =
          (r, w\<lparr>tasks := tasks w @ [?t] @ ts\<rparr>)" by auto
      then show ?thesis using row Some Naive by (auto simp: Let_def)
    qed
  qed
qed

lemma cog_load_frame:
  "warnings (snd (cog_load fromisoformat utcnow w)) = warnings w \<and>
   punishments (snd (cog_load fromisoformat utcnow w)) = punishments w"
  using cog_load_rows_tasks[of fromisoformat utcnow 0 "get_all_active_punishments w" w]
  by (auto simp: cog_load_def)

lemma exec_punishments: "\<exists>P. punishments (exec e w) = filter P (punishments w)"
proof (cases e)
  case (CmdWarn c member reason timestamp)
  then show ?thesis
    using cmd_warn_obs[OF blind_punishments, of c member reason timestamp w]
    by (auto simp: add_warning_def intro: exI[of _ "\<lambda>_. True"])
next
  case (CmdDelwarn c member)
  then show ?thesis
    using cmd_delwarn_obs[OF blind_punishments, of c member w]
    by (auto simp: delete_last_warning_def split: option.splits intro: exI[of _ "\<lambda>_. True"])
next
  case (CmdClearwarns c member)
  then show ?thesis
    using cmd_clearwarns_obs[OF blind_punishments(1), of c member w]
    by (auto simp: delete_all_user_warnings_def intro: exI[of _ "\<lambda>_. True"])
next
  case (Fire i)
  then show ?thesis using fire_frame[of i w] by simp
next
  case (CogLoad fromisoformat utcnow)
  then show ?thesis using cog_load_frame[of fromisoformat utcnow w]
    by (auto intro: exI[of _ "\<lambda>_. True"])
next
  case (Elsewhere f)
  then show ?thesis by (auto intro: exI[of _ "\<lambda>_. True"])
qed

lemma run_punishments: "\<exists>P. punishments (run es w) = filter P (punishments w)"
proof (induction es arbitrary: w)
  case Nil
  show ?case by (auto intro: exI[of _ "\<lambda>_. True"])
next
  case (Cons e es)
  obtain P where P: "punishments (exec e w) = filter P (punishments w)"
    using exec_punishments by blast
  obtain Q where "punishments (run es (exec e w)) = filter Q (punishments (exec e w))"
    using Cons.IH by blast
  then have "punishments (run (e # es) w) = filter (\<lambda>x. P x \<and> Q x) (punishments w)"
    using P by simp
  then show ?case by blast
qed

text \<open>
  Claim C10. No event inserts into the punishments table: after any sequence of events
  the table holds a selection of the rows it held before, and \<^verbatim>\<open>apply_punishment\<close> leaves
  it as it is. So a table that is empty stays empty, \<^verbatim>\<open>get_all_active_punishments\<close> returns
  no row, and \<^verbatim>\<open>cog_load\<close> schedules nothing.
\<close>

theorem punishments_never_inserted:
  "(\<exists>P. punishments (run es w) = filter P (punishments w)) \<and>
   punishments (snd (apply_punishment member n c w)) = punishments w \<and>
   (punishments w = [] \<longrightarrow>
      punishments (run es w) = [] \<and>
      get_all_active_punishments (run es w) = [] \<and>
      cog_load fromisoformat utcnow (run es w) = (None, run es w))"
proof -
  have sel: "\<exists>P. punishments (run es w) = filter P (punishments w)"
    by (rule run_punishments)
  have ap: "punishments (snd (apply_punishment member n c w)) = punishments w"
    by (rule same_keepsD[OF same_apply_punishment[OF blind_punishments]])
  have "punishments (run es w) = []" if "punishments w = []"
    using sel that by auto
  then show ?thesis
    using sel ap by (auto simp: get_all_active_punishments_def cog_load_def List.map_filter_simps)
qed

theorem punishments_never_inserted_witness:
  "punishments world_a = [] \<and>
   punishments
     (run [CmdWarn ctx_a 1 ''spam'' ''t1'', CmdWarn ctx_a 1 ''spam'' ''t2'',
           CmdWarn ctx_a 1 ''spam'' ''t3'', Fire 0, CmdDelwarn ctx_a 1,
           CmdClearwarns ctx_a 1] world_a) = [] \<and>
   get_all_active_punishments
     (run [CmdWarn ctx_a 1 ''spam'' ''t1'', CmdWarn ctx_a 1 ''spam'' ''t2'',
           CmdWarn ctx_a 1 ''spam'' ''t3'', Fire 0, CmdDelwarn ctx_a 1,
           CmdClearwarns ctx_a 1] world_a) = []"
proof -
  have h: "punishments world_a = []" by (simp add: world_a_def)
  show ?thesis
    using h punishments_never_inserted[of
        "[CmdWarn ctx_a 1 ''spam'' ''t1'', CmdWarn ctx_a 1 ''spam'' ''t2'',
          CmdWarn ctx_a 1 ''spam'' ''t3'', Fire 0, CmdDelwarn ctx_a 1,
          CmdClearwarns ctx_a 1]" world_a]
    by blast
qed


section \<open>Evaluating the commands on the example worlds\<close>

lemmas discord_defs =
  api_def create_role_def set_permissions_def add_roles_def remove_roles_def timeout_none_def
  ban_def unban_def fetch_bans_def send_def member_send_def muted_role_exists_def
  has_muted_role_def is_banned_def guild_channels_def create_task_def
  send_log_def ok_def try_except_def

lemmas database_defs =
  add_warning_def user_warnings_def get_warnings_count_def get_one_user_warning_def
  delete_last_warning_def delete_all_user_warnings_def get_all_active_punishments_def
  delete_punishment_def List.map_filter_simps

lemmas cog_defs =
  apply_punishment_def adjust_punishment_after_change_def cmd_warn_def cmd_delwarn_def
  cmd_clearwarns_def delayed_unpunish_def fire_def cog_load_def PUNISHMENTS_def truthy_def
  hours_def

lemmas example_defs = world_a_def world_b_def guild_a_def ctx_a_def

text \<open>
  Claim C1, on the code. In the fresh world, \<^verbatim>\<open>apply_punishment\<close> with count 3 gives member
  1 the role "Muted" and schedules \<^verbatim>\<open>unmute_later\<close> for one hour; with count 8 it bans the
  member and schedules nothing; three warnings in a row end in the same mute. In none
  of the three cases does the punishments table receive a row: it is empty afterwards,
  and \<^verbatim>\<open>get_all_active_punishments\<close> returns nothing.
\<close>

theorem apply_punishment_persists_no_row:
  "fst (apply_punishment 1 3 ctx_a world_a) = None \<and>
   has_muted_role 10 1 (snd (apply_punishment 1 3 ctx_a world_a)) \<and>
   tasks (snd (apply_punishment 1 3 ctx_a world_a)) = [UnmuteLater ctx_a 1 (hours 1)] \<and>
   punishments (snd (apply_punishment 1 3 ctx_a world_a)) = [] \<and>
   get_all_active_punishments (snd (apply_punishment 1 3 ctx_a world_a)) = [] \<and>
   fst (apply_punishment 1 8 ctx_a world_a) = None \<and>
   is_banned 10 1 (snd (apply_punishment 1 8 ctx_a world_a)) \<and>
   tasks (snd (apply_punishment 1 8 ctx_a world_a)) = [] \<and>
   punishments (snd (apply_punishment 1 8 ctx_a world_a)) = [] \<and>
   tasks (run [CmdWarn ctx_a 1 ''spam'' ''t1'', CmdWarn ctx_a 1 ''spam'' ''t2'',
               CmdWarn ctx_a 1 ''spam'' ''t3''] world_a) = [UnmuteLater ctx_a 1 (hours 1)] \<and>
   punishments (run [CmdWarn ctx_a 1 ''spam'' ''t1'', CmdWarn ctx_a 1 ''spam'' ''t2'',
               CmdWarn ctx_a 1 ''spam'' ''t3''] world_a) = []"
  by (simp add: cog_defs database_defs discord_defs example_defs)

text \<open>
  Claim C2, on the code. The pending reversal of the mute of member 1 fires. When guild
  10 no longer resolves, and when it resolves but the member has left it, the task
  returns at once and the row is still in the table and still returned by
  \<^verbatim>\<open>get_all_active_punishments\<close>; only when both resolve is the row deleted.
\<close>

theorem delayed_unpunish_unresolved_keeps_row:
  "fire 0 (world_b\<lparr>guilds := Map.empty\<rparr>) = (None, world_b\<lparr>guilds := Map.empty, tasks := []\<rparr>) \<and>
   get_all_active_punishments (snd (fire 0 (world_b\<lparr>guilds := Map.empty\<rparr>))) =
     [(1, 10, ''mute'', ''2020-01-01T00:00:00'')] \<and>
   get_all_active_punishments
     (snd (fire 0 (world_b\<lparr>guilds := [10 \<mapsto> guild_a\<lparr>members := {}\<rparr>]\<rparr>))) =
     [(1, 10, ''mute'', ''2020-01-01T00:00:00'')] \<and>
   get_all_active_punishments (snd (fire 0 world_b)) = []"
  by (simp add: cog_defs database_defs discord_defs example_defs)

section \<open>Startup recovery\<close>

lemma cog_load_rows_prefix:
  "cog_load_rows fromisoformat utcnow i rows w =
     (first_error fromisoformat rows,
      w\<lparr>tasks := tasks w @
         map (recovery_task fromisoformat utcnow)
           (enumerate i (takeWhile (naive_expiry fromisoformat) rows))\<rparr>)"
proof (induction rows arbitrary: i w)
  case Nil
  show ?case by (simp add: first_error_def)
next
  case (Cons row rows)
  obtain u g a e where row: "row = (u, g, a, e)" by (cases row)
  show ?case
  proof (cases "fromisoformat e")
    case None
    then have "\<not> naive_expiry fromisoformat row" by (simp add: naive_expiry_def row)
    then show ?thesis using None row by (simp add: first_error_def)
  next
    case (Some p)
    show ?thesis
    proof (cases p)
      case (Aware t)
      then have "\<not> naive_expiry fromisoformat row" using Some by (simp add: naive_expiry_def row)
      then show ?thesis using Some Aware row by (simp add: first_error_def)
    next
      case (Naive t)
      then have n: "naive_expiry fromisoformat row" using Some by (simp add: naive_expiry_def row)
      have e: "expiry fromisoformat e = t" using Some Naive by (simp add: expiry_def)
      have fe: "first_error fromisoformat (row # rows) = first_error fromisoformat rows"
        using n by (simp add: first_error_def)
      have "cog_load_rows fromisoformat utcnow (Suc i) rows w' =
         (first_error fromisoformat rows,
          w'\<lparr>tasks := tasks w' @
             map (recovery_task fromisoformat utcnow)
               (enumerate (Suc i) (takeWhile (naive_expiry fromisoformat) rows))\<rparr>)" for w'
        by (rule Cons.IH)
      then show ?thesis
        using Some Naive n e fe row by (simp add: Let_def max_def recovery_task_def)
    qed
  qed
qed

lemma first_error_none:
  "\<forall>r \<in> set rows. naive_expiry fromisoformat r \<Longrightarrow>
   first_error fromisoformat rows = None \<and> takeWhile (naive_expiry fromisoformat) rows = rows"
  by (simp add: first_error_def dropWhile_eq_Nil_conv[THEN iffD2])

lemma cog_load_rows_parsed:
  assumes "\<forall>r \<in> set rows. naive_expiry fromisoformat r"
  shows "cog_load_rows fromisoformat utcnow i rows w =
     (None, w\<lparr>tasks := tasks w @ map (recovery_task fromisoformat utcnow) (enumerate i rows)\<rparr>)"
  using cog_load_rows_prefix[of fromisoformat utcnow i rows w] first_error_none[OF assms]
  by simp

lemma set_get_all_active_punishments:
  "set (get_all_active_punishments w) =
     {(p_user_id r, p_guild_id r, p_action r, e) | r e.
        r \<in> set (punishments w) \<and> p_ends_at r = Some e}"
  by (auto simp: get_all_active_punishments_def List.map_filter_def split: option.splits)
    (force split: option.splits)

lemma length_get_all_active_punishments:
  "length (get_all_active_punishments w) =
   length (filter (\<lambda>r. p_ends_at r \<noteq> None) (punishments w))"
proof -
  have "length (List.map_filter f xs) = length (filter (\<lambda>r. f r \<noteq> None) xs)"
    for f :: "punishment_row \<Rightarrow> (int \<times> int \<times> string \<times> string) option" and xs
    by (simp add: List.map_filter_def)
  then show ?thesis
    unfolding get_all_active_punishments_def
    by (simp add: option.case_eq_if cong: filter_cong)
qed

text \<open>
  Claim C5 as stated fails. The table holds two expiring rows, and the expiry of the
  second lies in the past. The expiry of the first does not parse: \<^verbatim>\<open>cog_load\<close> ends with
  \<^verbatim>\<open>ValueError\<close> and has scheduled nothing, the second row included. With a first expiry
  that carries a UTC offset it ends with \<^verbatim>\<open>TypeError\<close>, again with nothing scheduled.
\<close>

theorem cog_load_stops_at_unusable_expiry:
  "get_all_active_punishments (world_e ''tomorrow'') =
     [(1, 10, ''mute'', ''tomorrow''), (2, 10, ''mute'', ''2020-01-01T00:00:00'')] \<and>
   fromisoformat_a ''2020-01-01T00:00:00'' = Some (Naive 1577836800000000) \<and>
   1577836800000000 \<le> utcnow_a 1 \<and>
   tasks (world_e ''tomorrow'') = [] \<and>
   cog_load fromisoformat_a utcnow_a (world_e ''tomorrow'') =
     (Some ValueError, world_e ''tomorrow'') \<and>
   tasks (world_e ''2030-01-01T00:00:00+00:00'') = [] \<and>
   cog_load fromisoformat_a utcnow_a (world_e ''2030-01-01T00:00:00+00:00'') =
     (Some TypeError, world_e ''2030-01-01T00:00:00+00:00'')"
  by (simp add: cog_load_def database_defs world_e_def world_a_def fromisoformat_a_def
      utcnow_a_def)

text \<open>
  Claim C5, amended. \<^verbatim>\<open>cog_load\<close> reads exactly the rows whose expiry is not null and goes
  through them in order. For every row up to the first one whose expiry does not parse
  to a naive datetime it appends one task with the delay \<open>max 0 (expiry - now)\<close>, now
  being the clock reading of that row's iteration, so a row whose expiry is not after
  that reading gets the delay 0. At the first row whose expiry does not parse
  (\<^verbatim>\<open>ValueError\<close>) or carries a UTC offset (\<^verbatim>\<open>TypeError\<close>) it stops with that exception: that
  row and the rows after it get no task. When every stored expiry parses to a naive
  datetime, it ends without exception and every row read has its task.
\<close>

theorem cog_load_schedules_each_expiring_row:
  "set (get_all_active_punishments w) =
     {(p_user_id r, p_guild_id r, p_action r, e) | r e.
        r \<in> set (punishments w) \<and> p_ends_at r = Some e} \<and>
   length (get_all_active_punishments w) =
     length (filter (\<lambda>r. p_ends_at r \<noteq> None) (punishments w)) \<and>
   cog_load fromisoformat utcnow w =
     (first_error fromisoformat (get_all_active_punishments w),
      w\<lparr>tasks := tasks w @
         map (recovery_task fromisoformat utcnow)
           (enumerate 0
              (takeWhile (naive_expiry fromisoformat) (get_all_active_punishments w)))\<rparr>) \<and>
   ((\<forall>r \<in> set (get_all_active_punishments w). naive_expiry fromisoformat r) \<longrightarrow>
      cog_load fromisoformat utcnow w =
        (None, w\<lparr>tasks := tasks w @
           map (recovery_task fromisoformat utcnow)
             (enumerate 0 (get_all_active_punishments w))\<rparr>)) \<and>
   (\<forall>k u g a e.
      k < length (takeWhile (naive_expiry fromisoformat) (get_all_active_punishments w)) \<and>
      get_all_active_punishments w ! k = (u, g, a, e) \<longrightarrow>
      tasks (snd (cog_load fromisoformat utcnow w)) ! (length (tasks w) + k) =
        DelayedUnpunish u g a (max 0 (expiry fromisoformat e - utcnow k)) \<and>
      (expiry fromisoformat e \<le> utcnow k \<longrightarrow>
         tasks (snd (cog_load fromisoformat utcnow w)) ! (length (tasks w) + k) =
           DelayedUnpunish u g a 0))"
proof -
  let ?rows = "get_all_active_punishments w"
  let ?ok = "takeWhile (naive_expiry fromisoformat) ?rows"
  have load: "cog_load fromisoformat utcnow w =
     (first_error fromisoformat ?rows,
      w\<lparr>tasks := tasks w @ map (recovery_task fromisoformat utcnow) (enumerate 0 ?ok)\<rparr>)"
    unfolding cog_load_def by (rule cog_load_rows_prefix)
  have all: "cog_load fromisoformat utcnow w =
        (None, w\<lparr>tasks := tasks w @
           map (recovery_task fromisoformat utcnow) (enumerate 0 ?rows)\<rparr>)"
    if "\<forall>r \<in> set ?rows. naive_expiry fromisoformat r"
    unfolding cog_load_def using that by (rule cog_load_rows_parsed)
  have nth: "tasks (snd (cog_load fromisoformat utcnow w)) ! (length (tasks w) + k) =
        DelayedUnpunish u g a (max 0 (expiry fromisoformat e - utcnow k))"
    if "k < length ?ok" "?rows ! k = (u, g, a, e)" for k u g a e
  proof -
    have "?ok ! k = ?rows ! k" using that(1) by (rule takeWhile_nth)
    then show ?thesis
      using that by (simp add: load nth_append nth_enumerate_eq recovery_task_def)
  qed
  have past: "tasks (snd (cog_load fromisoformat utcnow w)) ! (length (tasks w) + k) =
           DelayedUnpunish u g a 0"
    if "k < length ?ok" "?rows ! k = (u, g, a, e)" "expiry fromisoformat e \<le> utcnow k"
    for k u g a e
    using nth[OF that(1,2)] that(3) by simp
  show ?thesis
    using load all nth past set_get_all_active_punishments[of w]
      length_get_all_active_punishments[of w]
    by blast
qed

theorem cog_load_schedules_each_expiring_row_witness:
  "get_all_active_punishments (world_b\<lparr>tasks := []\<rparr>) = [(1, 10, ''mute'', ''2020-01-01T00:00:00'')] \<and>
   naive_expiry fromisoformat_a (1, 10, ''mute'', ''2020-01-01T00:00:00'') \<and>
   expiry fromisoformat_a ''2020-01-01T00:00:00'' \<le> utcnow_a 0 \<and>
   cog_load fromisoformat_a utcnow_a (world_b\<lparr>tasks := []\<rparr>) =
     (None, world_b\<lparr>tasks := [DelayedUnpunish 1 10 ''mute'' 0]\<rparr>) \<and>
   tasks (snd (cog_load fromisoformat_a utcnow_a (world_b\<lparr>tasks := []\<rparr>))) ! 0 =
     DelayedUnpunish 1 10 ''mute'' 0 \<and>
   get_all_active_punishments (world_d\<lparr>tasks := []\<rparr>) = [(1, 10, ''mute'', ''2030-01-01T00:00:00'')] \<and>
   naive_expiry fromisoformat_a (1, 10, ''mute'', ''2030-01-01T00:00:00'') \<and>
   cog_load fromisoformat_a utcnow_a (world_d\<lparr>tasks := []\<rparr>) = (None, world_d)"
proof -
  have rows: "get_all_active_punishments (world_b\<lparr>tasks := []\<rparr>) =
      [(1, 10, ''mute'', ''2020-01-01T00:00:00'')]"
    "get_all_active_punishments (world_d\<lparr>tasks := []\<rparr>) =
      [(1, 10, ''mute'', ''2030-01-01T00:00:00'')]"
    by (simp_all add: database_defs example_defs world_d_def)
  have n: "naive_expiry fromisoformat_a (1, 10, ''mute'', ''2020-01-01T00:00:00'')"
    "naive_expiry fromisoformat_a (1, 10, ''mute'', ''2030-01-01T00:00:00'')"
    by (simp_all add: naive_expiry_def fromisoformat_a_def)
  have e: "expiry fromisoformat_a ''2020-01-01T00:00:00'' = 1577836800000000"
    "expiry fromisoformat_a ''2030-01-01T00:00:00'' = 1893456000000000"
    by (simp_all add: expiry_def fromisoformat_a_def)
  have now: "expiry fromisoformat_a ''2020-01-01T00:00:00'' \<le> utcnow_a 0"
    "utcnow_a 0 = 1793000000000000"
    by (simp_all add: e utcnow_a_def)
  have hb: "\<forall>r \<in> set (get_all_active_punishments (world_b\<lparr>tasks := []\<rparr>)).
      naive_expiry fromisoformat_a r"
    and hd: "\<forall>r \<in> set (get_all_active_punishments (world_d\<lparr>tasks := []\<rparr>)).
      naive_expiry fromisoformat_a r"
    by (simp_all add: rows n)
  have "cog_load fromisoformat_a utcnow_a (world_b\<lparr>tasks := []\<rparr>) =
     (None, world_b\<lparr>tasks := [],
        tasks := tasks (world_b\<lparr>tasks := []\<rparr>) @
          map (recovery_task fromisoformat_a utcnow_a)
            (enumerate 0 (get_all_active_punishments (world_b\<lparr>tasks := []\<rparr>)))\<rparr>)"
    using cog_load_schedules_each_expiring_row[of "world_b\<lparr>tasks := []\<rparr>" fromisoformat_a utcnow_a]
      hb
    by blast
  then have b: "cog_load fromisoformat_a utcnow_a (world_b\<lparr>tasks := []\<rparr>) =
     (None, world_b\<lparr>tasks := [DelayedUnpunish 1 10 ''mute'' 0]\<rparr>)"
    by (simp add: rows enumerate_simps recovery_task_def e now)
  have "cog_load fromisoformat_a utcnow_a (world_d\<lparr>tasks := []\<rparr>) =
     (None, world_d\<lparr>tasks := [],
        tasks := tasks (world_d\<lparr>tasks := []\<rparr>) @
          map (recovery_task fromisoformat_a utcnow_a)
            (enumerate 0 (get_all_active_punishments (world_d\<lparr>tasks := []\<rparr>)))\<rparr>)"
    using cog_load_schedules_each_expiring_row[of "world_d\<lparr>tasks := []\<rparr>" fromisoformat_a utcnow_a]
      hd
    by blast
  then have "cog_load fromisoformat_a utcnow_a (world_d\<lparr>tasks := []\<rparr>) =
     (None, world_d\<lparr>tasks := [DelayedUnpunish 1 10 ''mute'' 100456000000000]\<rparr>)"
    by (simp add: rows enumerate_simps recovery_task_def e now)
  moreover have "world_d\<lparr>tasks := [DelayedUnpunish 1 10 ''mute'' 100456000000000]\<rparr> = world_d"
    by (simp add: world_d_def)
  ultimately have d: "cog_load fromisoformat_a utcnow_a (world_d\<lparr>tasks := []\<rparr>) = (None, world_d)"
    by simp
  show ?thesis
    using rows n now(1) b d by simp
qed

section \<open>Clearing the warnings\<close>

text \<open>
  Claim C4 as stated fails. With an expiring mute of member 1 in the table and its
  reversal pending, \<^verbatim>\<open>cmd_clearwarns\<close> leaves both the row and the task; and after three
  warnings of a fresh bot, the \<^verbatim>\<open>unmute_later\<close> task they scheduled is still pending
  after \<^verbatim>\<open>cmd_clearwarns\<close>.
\<close>

theorem cmd_clearwarns_keeps_row_and_task:
  "get_all_active_punishments (snd (cmd_clearwarns ctx_a 1 world_b)) =
     [(1, 10, ''mute'', ''2020-01-01T00:00:00'')] \<and>
   tasks (snd (cmd_clearwarns ctx_a 1 world_b)) = [DelayedUnpunish 1 10 ''mute'' 0] \<and>
   tasks (run [CmdWarn ctx_a 1 ''spam'' ''t1'', CmdWarn ctx_a 1 ''spam'' ''t2'',
               CmdWarn ctx_a 1 ''spam'' ''t3'', CmdClearwarns ctx_a 1] world_a) =
     [UnmuteLater ctx_a 1 (hours 1)]"
  by (simp add: cog_defs database_defs discord_defs example_defs)

lemma user_warnings_delete_all:
  "user_warnings member gid (delete_all_user_warnings member gid w) = []"
  by (simp add: user_warnings_def delete_all_user_warnings_def filter_empty_conv)

lemma cmd_clearwarns_discord:
  assumes g: "guilds w (ctx_guild c) = Some g"
    and perms: "can_send g" "can_manage_roles g" "can_moderate g" "can_ban g"
  shows "fst (cmd_clearwarns c member w) = None \<and>
         guilds (snd (cmd_clearwarns c member w)) =
           (guilds w)(ctx_guild c \<mapsto>
              g\<lparr>timed_out := timed_out g - {member},
                muted := (if muted_role g then muted g - {member} else muted g),
                bans := bans g - {member}\<rparr>)"
  using assms
  by (auto simp: cmd_clearwarns_def discord_defs delete_all_user_warnings_def
      split: option.splits)


text \<open>
  Claim C4, amended. \<^verbatim>\<open>cmd_clearwarns\<close> deletes every warning of the pair, so the count is
  0 afterwards, whatever else happens; it leaves the punishments table and the pending
  tasks exactly as they were. When the guild resolves and the bot may send, manage
  roles, moderate and ban there, the command ends without exception, the member is no
  longer timed out, no longer holds the role "Muted" and is no longer banned (a member
  who was none of these is left so, the missing ban entry being tolerated).
\<close>

theorem cmd_clearwarns_clears_and_reverses:
  "user_warnings member (ctx_guild c) (snd (cmd_clearwarns c member w)) = [] \<and>
   get_warnings_count member (ctx_guild c) (snd (cmd_clearwarns c member w)) = 0 \<and>
   punishments (snd (cmd_clearwarns c member w)) = punishments w \<and>
   tasks (snd (cmd_clearwarns c member w)) = tasks w \<and>
   (\<forall>g. guilds w (ctx_guild c) = Some g \<and> can_send g \<and> can_manage_roles g \<and>
        can_moderate g \<and> can_ban g \<longrightarrow>
        fst (cmd_clearwarns c member w) = None \<and>
        \<not> has_muted_role (ctx_guild c) member (snd (cmd_clearwarns c member w)) \<and>
        \<not> is_banned (ctx_guild c) member (snd (cmd_clearwarns c member w)) \<and>
        guilds (snd (cmd_clearwarns c member w)) =
          (guilds w)(ctx_guild c \<mapsto>
             g\<lparr>timed_out := timed_out g - {member},
               muted := (if muted_role g then muted g - {member} else muted g),
               bans := bans g - {member}\<rparr>))"
proof -
  let ?w' = "snd (cmd_clearwarns c member w)"
  have "user_warnings member (ctx_guild c) ?w' =
        user_warnings member (ctx_guild c) (delete_all_user_warnings member (ctx_guild c) w)"
    by (rule cmd_clearwarns_obs) (simp add: discord_blind_def user_warnings_def)
  then have none: "user_warnings member (ctx_guild c) ?w' = []"
    by (simp add: user_warnings_delete_all)
  have p: "punishments ?w' = punishments w"
    using cmd_clearwarns_obs[OF blind_punishments(1), of c member w]
    by (simp add: delete_all_user_warnings_def)
  have t: "tasks ?w' = tasks w"
    using cmd_clearwarns_obs[OF blind_tasks, of c member w]
    by (simp add: delete_all_user_warnings_def)
  have d: "fst (cmd_clearwarns c member w) = None \<and>
        \<not> has_muted_role (ctx_guild c) member ?w' \<and>
        \<not> is_banned (ctx_guild c) member ?w' \<and>
        guilds ?w' =
          (guilds w)(ctx_guild c \<mapsto>
             g\<lparr>timed_out := timed_out g - {member},
               muted := (if muted_role g then muted g - {member} else muted g),
               bans := bans g - {member}\<rparr>)"
    if "guilds w (ctx_guild c) = Some g" "can_send g" "can_manage_roles g" "can_moderate g"
      "can_ban g" for g
    using cmd_clearwarns_discord[OF that, of member]
    by (simp add: has_muted_role_def is_banned_def)
  show ?thesis
    using none p t d by (simp add: get_warnings_count_def)
qed

theorem cmd_clearwarns_clears_and_reverses_witness:
  "guilds world_b (ctx_guild ctx_a) = Some (guild_a\<lparr>muted_role := True, muted := {1}\<rparr>) \<and>
   can_send (guild_a\<lparr>muted_role := True, muted := {1}\<rparr>) \<and>
   can_manage_roles (guild_a\<lparr>muted_role := True, muted := {1}\<rparr>) \<and>
   can_moderate (guild_a\<lparr>muted_role := True, muted := {1}\<rparr>) \<and>
   can_ban (guild_a\<lparr>muted_role := True, muted := {1}\<rparr>) \<and>
   has_muted_role 10 1 world_b \<and>
   fst (cmd_clearwarns ctx_a 1 world_b) = None \<and>
   \<not> has_muted_role 10 1 (snd (cmd_clearwarns ctx_a 1 world_b)) \<and>
   \<not> is_banned 10 1 (snd (cmd_clearwarns ctx_a 1 world_b)) \<and>
   get_warnings_count 1 10 (snd (cmd_clearwarns ctx_a 1 world_b)) = 0"
proof -
  have h: "guilds world_b (ctx_guild ctx_a) = Some (guild_a\<lparr>muted_role := True, muted := {1}\<rparr>) \<and>
     can_send (guild_a\<lparr>muted_role := True, muted := {1}\<rparr>) \<and>
     can_manage_roles (guild_a\<lparr>muted_role := True, muted := {1}\<rparr>) \<and>
     can_moderate (guild_a\<lparr>muted_role := True, muted := {1}\<rparr>) \<and>
     can_ban (guild_a\<lparr>muted_role := True, muted := {1}\<rparr>)"
    by (simp add: example_defs)
  have m: "has_muted_role 10 1 world_b"
    by (simp add: has_muted_role_def example_defs)
  have c: "ctx_guild ctx_a = 10" by (simp add: ctx_a_def)
  show ?thesis
    using cmd_clearwarns_clears_and_reverses[of 1 ctx_a world_b] h m
    unfolding c by blast
qed


section \<open>Applying a punishment again\<close>













section \<open>The warnings table keeps the order of insertion\<close>











section \<open>Deleting the latest warning\<close>
















section \<open>Rows with an expiry and the tasks that reverse them\<close>















lemma live_ge_recovery: "recovery_timers k w \<le> live_timers k w"
proof -
  have "length (filter (\<lambda>t. is_recovery t \<and> task_key t = k) ts) \<le>
        length (filter (\<lambda>t. task_key t = k) ts)" for ts
    by (induction ts) auto
  then show ?thesis by (simp add: recovery_timers_def live_timers_def)
qed


lemmas timer_defs =
  one_timer_per_row_def one_recovery_timer_per_row_def expiring_rows_def live_timers_def
  recovery_timers_def row_key_def


section \<open>What the commands add to the pending tasks\<close>


















section \<open>One live task for every row with an expiry\<close>










text \<open>The task of \<open>world_b\<close> fires when guild 10 no longer resolves: the row is left with no
  pending task at all.\<close>

lemma unresolved_fire_leaves_no_timer:
  "live_timers (1, 10, ''mute'') (snd (fire 0 (world_b\<lparr>guilds := Map.empty\<rparr>))) = 0 \<and>
   \<not> one_timer_per_row (snd (fire 0 (world_b\<lparr>guilds := Map.empty\<rparr>)))"
  by (simp add: timer_defs cog_defs database_defs discord_defs example_defs)



end
